theory Spec2Isabelle
  imports Complex_Main "HOL-Library.AList"
begin

section \<open>Data model\<close>

text \<open>
  The gateway of \<^verbatim>\<open>src/index.js\<close> keeps no state of its own: every handler works on two
  outside services, the storage bucket (\<^verbatim>\<open>bucket\<close>) and the document database
  (\<^verbatim>\<open>db\<close>). The model makes both explicit as a \<open>world\<close> that each service call takes and
  returns. A blob object carries what the handlers read from it: the bytes, the content
  type and the \<^verbatim>\<open>size\<close> entry of its metadata (absent for an object whose metadata has
  none).
\<close>

record blob_object =
  payload :: string
  contentType :: "string option"
  size_meta :: "nat option"

text \<open>A document of the \<^verbatim>\<open>files\<close> collection, as line 94 writes it.\<close>

record file_record =
  fileName :: string
  uploadDate :: nat
  fileURL :: string

text \<open>One element of \<^verbatim>\<open>req.files\<close>: the fields of a multer file the handler reads.\<close>

record upload_file =
  buffer :: string
  mimetype :: string

text \<open>
  Every call to a service is recorded, in order, whether the service accepts it or not;
  the record of calls is what "attempted" and "before" mean below.
\<close>

datatype event =
    BlobSave string
  | BlobSign string
  | BlobDelete string
  | BlobList
  | BlobGetMetadata string
  | DocAdd string
  | DocGet string
  | DocDelete string
  | CollGet string

datatype error = StorageError | FirestoreError | SyntaxError

record world =
  bucket :: "(string \<times> blob_object) list"
  files_coll :: "(string \<times> file_record) list"
  downloads_coll :: "string list"
  trace :: "event list"

text \<open>
  What the handlers cannot decide is a parameter: \<open>fails n\<close> tells whether the service
  rejects the call made when \<open>n\<close> calls have been made before it, \<open>signer\<close> is the link
  the bucket signs for a path, \<open>clock n\<close> is the time read after \<open>n\<close> calls,
  \<open>toLocaleString\<close> prints a time, and \<open>mimeTypeMapping\<close> is the table of
  \<^verbatim>\<open>./mimeTypes.js\<close>, a file that is not part of the sources at hand (its own string
  entries only: a key the table lacks is \<open>None\<close>).
\<close>

record env =
  fails :: "nat \<Rightarrow> bool"
  signer :: "string \<Rightarrow> string"
  clock :: "nat \<Rightarrow> nat"
  toLocaleString :: "nat \<Rightarrow> string"
  mimeTypeMapping :: "string \<Rightarrow> string option"

section \<open>The two services\<close>

text \<open>A call is logged, and the service accepts or rejects it.\<close>

definition attempt :: "env \<Rightarrow> event \<Rightarrow> world \<Rightarrow> bool \<times> world" where
  "attempt e ev w = (fails e (length (trace w)), w\<lparr>trace := trace w @ [ev]\<rparr>)"

text \<open>\<^verbatim>\<open>fileRef.save(buffer, { contentType })\<close>: writes the object, replacing one at the same path.\<close>

definition blob_save :: "env \<Rightarrow> string \<Rightarrow> string \<Rightarrow> string \<Rightarrow> world \<Rightarrow> (error + unit) \<times> world" where
  "blob_save e path bytes ctype w =
     (case attempt e (BlobSave path) w of
        (True, w1) \<Rightarrow> (Inl StorageError, w1)
      | (False, w1) \<Rightarrow>
          (Inr (), w1\<lparr>bucket := AList.update path
             \<lparr>payload = bytes, contentType = Some ctype, size_meta = Some (length bytes)\<rparr>
             (bucket w1)\<rparr>))"

text \<open>\<^verbatim>\<open>fileRef.getSignedUrl({ action: "read", expires: "03-09-2491" })\<close>.\<close>

definition get_signed_url :: "env \<Rightarrow> string \<Rightarrow> world \<Rightarrow> (error + string) \<times> world" where
  "get_signed_url e path w =
     (case attempt e (BlobSign path) w of
        (True, w1) \<Rightarrow> (Inl StorageError, w1)
      | (False, w1) \<Rightarrow> (Inr (signer e path), w1))"

text \<open>
  \<^verbatim>\<open>fileRef.delete()\<close>, called without \<^verbatim>\<open>ignoreNotFound\<close>: the storage client rejects the
  call when there is no object at the path.
\<close>

definition blob_delete :: "env \<Rightarrow> string \<Rightarrow> world \<Rightarrow> (error + unit) \<times> world" where
  "blob_delete e path w =
     (case attempt e (BlobDelete path) w of
        (True, w1) \<Rightarrow> (Inl StorageError, w1)
      | (False, w1) \<Rightarrow>
          (case map_of (bucket w1) path of
             None \<Rightarrow> (Inl StorageError, w1)
           | Some _ \<Rightarrow> (Inr (), w1\<lparr>bucket := AList.delete path (bucket w1)\<rparr>)))"

text \<open>\<^verbatim>\<open>bucket.getFiles()\<close>: every object of the bucket, by name.\<close>

definition get_files :: "env \<Rightarrow> world \<Rightarrow> (error + string list) \<times> world" where
  "get_files e w =
     (case attempt e BlobList w of
        (True, w1) \<Rightarrow> (Inl StorageError, w1)
      | (False, w1) \<Rightarrow> (Inr (map fst (bucket w1)), w1))"

text \<open>\<^verbatim>\<open>file.getMetadata()\<close>: rejected by the service, or for an object that is not there.\<close>

definition get_metadata :: "env \<Rightarrow> string \<Rightarrow> world \<Rightarrow> (error + blob_object) \<times> world" where
  "get_metadata e name w =
     (case attempt e (BlobGetMetadata name) w of
        (True, w1) \<Rightarrow> (Inl StorageError, w1)
      | (False, w1) \<Rightarrow>
          (case map_of (bucket w1) name of
             None \<Rightarrow> (Inl StorageError, w1)
           | Some b \<Rightarrow> (Inr b, w1)))"

text \<open>
  The identifier the database gives a new document: any identifier no document of the
  collection has. The model takes one longer than all of them.
\<close>

definition auto_id :: "string list \<Rightarrow> string" where
  "auto_id ids = replicate (Suc (foldr max (map length ids) 0)) (CHR ''0'')"

text \<open>\<^verbatim>\<open>db.collection("files").add(data)\<close>.\<close>

definition doc_add :: "env \<Rightarrow> file_record \<Rightarrow> world \<Rightarrow> (error + string) \<times> world" where
  "doc_add e d w =
     (case attempt e (DocAdd (fileName d)) w of
        (True, w1) \<Rightarrow> (Inl FirestoreError, w1)
      | (False, w1) \<Rightarrow>
          (let i = auto_id (map fst (files_coll w1))
           in (Inr i, w1\<lparr>files_coll := files_coll w1 @ [(i, d)]\<rparr>)))"

text \<open>\<^verbatim>\<open>(await db.collection("files").doc(id).get()).data()\<close>: \<open>None\<close> is \<^verbatim>\<open>undefined\<close>.\<close>

definition doc_get :: "env \<Rightarrow> string \<Rightarrow> world \<Rightarrow> (error + file_record option) \<times> world" where
  "doc_get e fileId w =
     (case attempt e (DocGet fileId) w of
        (True, w1) \<Rightarrow> (Inl FirestoreError, w1)
      | (False, w1) \<Rightarrow> (Inr (map_of (files_coll w1) fileId), w1))"

text \<open>\<^verbatim>\<open>fileDoc.delete()\<close>: deleting a document that is not there is no error.\<close>

definition doc_delete :: "env \<Rightarrow> string \<Rightarrow> world \<Rightarrow> (error + unit) \<times> world" where
  "doc_delete e fileId w =
     (case attempt e (DocDelete fileId) w of
        (True, w1) \<Rightarrow> (Inl FirestoreError, w1)
      | (False, w1) \<Rightarrow>
          (Inr (), w1\<lparr>files_coll := filter (\<lambda>(i, d). i \<noteq> fileId) (files_coll w1)\<rparr>))"



section \<open>Responses\<close>

record file_entry =
  entry_id :: string
  entry_fileName :: string
  entry_uploadDate :: string
  entry_fileURL :: string

datatype body =
    Message string
  | UploadOk string "string list"
  | FileList "file_entry list"
  | StatsBody nat string nat
  | FormatsBody "(string option \<times> nat) list"
  | ErrorBody string

text \<open>
  A handler sends a status and a body, or lets an exception escape (line 68 parses
  outside the \<^verbatim>\<open>try\<close>).
\<close>

datatype outcome = Sent nat body | Uncaught error

section \<open>Format classifier (lines 247-248)\<close>

text \<open>\<^verbatim>\<open>s.split(c)\<close> for a one-character separator: never empty, one more part than separators.\<close>

fun split_on :: "char \<Rightarrow> string \<Rightarrow> string list" where
  "split_on c [] = [[]]"
| "split_on c (x # xs) =
     (if x = c then [] # split_on c xs
      else (case split_on c xs of [] \<Rightarrow> [[x]] | p # ps \<Rightarrow> (x # p) # ps))"

text \<open>An array read: \<^verbatim>\<open>undefined\<close> out of range.\<close>

definition nth_opt :: "'a list \<Rightarrow> nat \<Rightarrow> 'a option" where
  "nth_opt xs i = (if i < length xs then Some (xs ! i) else None)"

text \<open>
  \<^verbatim>\<open>mimeTypeMapping[contentType] || contentType.split("/")[1]\<close>: the table's label unless
  it is missing or empty (both falsy), else the second part of the split.
\<close>

definition format_label :: "(string \<Rightarrow> string option) \<Rightarrow> string \<Rightarrow> string option" where
  "format_label tbl ct =
     (case tbl ct of
        Some label \<Rightarrow> if label \<noteq> [] then Some label else nth_opt (split_on (CHR ''/'') ct) 1
      | None \<Rightarrow> nth_opt (split_on (CHR ''/'') ct) 1)"

section \<open>Upload (lines 66-106)\<close>

text \<open>
  \<^verbatim>\<open>req.files\<close> is an array, or \<^verbatim>\<open>undefined\<close> when the request was not multipart.
  \<^verbatim>\<open>JSON.parse(req.body.fileNames)\<close> throws, or gives a falsy value (\<^verbatim>\<open>null\<close>, \<^verbatim>\<open>false\<close>,
  \<^verbatim>\<open>0\<close>, \<^verbatim>\<open>""\<close>), or the array of names the interface asks for.
\<close>

datatype parsed_names = ParseThrows | ParsedFalsy | ParsedNames "string list"

record upload_request =
  req_files :: "upload_file list option"
  req_fileNames :: parsed_names

text \<open>
  The loop of lines 79-99, from index \<open>i\<close>. The guard of line 70 has made the two arrays
  equally long before the loop starts, so \<open>fileNames ! i\<close> is in range wherever
  \<open>files ! i\<close> is.
\<close>

function upload_loop ::
  "env \<Rightarrow> upload_file list \<Rightarrow> string list \<Rightarrow> nat \<Rightarrow> string list \<Rightarrow> world
     \<Rightarrow> (error + string list) \<times> world" where
  "upload_loop e files fileNames i fileURLs w =
     (if i < length files then
        (case blob_save e (''files/'' @ fileNames ! i) (buffer (files ! i)) (mimetype (files ! i)) w of
           (Inl err, w1) \<Rightarrow> (Inl err, w1)
         | (Inr _, w1) \<Rightarrow>
             (case get_signed_url e (''files/'' @ fileNames ! i) w1 of
                (Inl err, w2) \<Rightarrow> (Inl err, w2)
              | (Inr url, w2) \<Rightarrow>
                  (case doc_add e \<lparr>fileName = fileNames ! i,
                                   uploadDate = clock e (length (trace w2)),
                                   fileURL = url\<rparr> w2 of
                     (Inl err, w3) \<Rightarrow> (Inl err, w3)
                   | (Inr _, w3) \<Rightarrow> upload_loop e files fileNames (Suc i) (fileURLs @ [url]) w3)))
      else (Inr fileURLs, w))"
  by pat_completeness auto
termination
  by (relation "measure (\<lambda>(e, files, fileNames, i, fileURLs, w). length files - i)") auto

declare upload_loop.simps [simp del]

definition upload :: "env \<Rightarrow> upload_request \<Rightarrow> world \<Rightarrow> outcome \<times> world" where
  "upload e req w =
     (case req_fileNames req of
        ParseThrows \<Rightarrow> (Uncaught SyntaxError, w)
      | ParsedFalsy \<Rightarrow> (Sent 400 (Message ''Missing required fields or mismatch in file count''), w)
      | ParsedNames fileNames \<Rightarrow>
          (case req_files req of
             None \<Rightarrow> (Sent 400 (Message ''Missing required fields or mismatch in file count''), w)
           | Some files \<Rightarrow>
               if length files \<noteq> length fileNames
               then (Sent 400 (Message ''Missing required fields or mismatch in file count''), w)
               else (case upload_loop e files fileNames 0 [] w of
                       (Inl err, w') \<Rightarrow> (Sent 500 (Message ''Failed to upload files''), w')
                     | (Inr fileURLs, w') \<Rightarrow>
                         (Sent 200 (UploadOk ''Files uploaded successfully'' fileURLs), w'))))"

section \<open>List (lines 109-126)\<close>


section \<open>Delete (lines 165-185)\<close>

definition delete_file :: "env \<Rightarrow> string \<Rightarrow> world \<Rightarrow> outcome \<times> world" where
  "delete_file e fileId w =
     (case doc_get e fileId w of
        (Inl err, w1) \<Rightarrow> (Sent 500 (Message ''Failed to delete file''), w1)
      | (Inr None, w1) \<Rightarrow> (Sent 404 (Message ''File not found''), w1)
      | (Inr (Some fileData), w1) \<Rightarrow>
          (case blob_delete e (''files/'' @ fileName fileData) w1 of
             (Inl err, w2) \<Rightarrow> (Sent 500 (Message ''Failed to delete file''), w2)
           | (Inr _, w2) \<Rightarrow>
               (case doc_delete e fileId w2 of
                  (Inl err, w3) \<Rightarrow> (Sent 500 (Message ''Failed to delete file''), w3)
                | (Inr _, w3) \<Rightarrow> (Sent 200 (Message ''File deleted successfully''), w3))))"

section \<open>Statistics (lines 188-235)\<close>








section \<open>File formats (lines 237-258)\<close>

text \<open>
  The loop of lines 242-251, with the \<^verbatim>\<open>Map\<close> as a list of entries in insertion order.
  Nothing inside the loop catches a rejected \<^verbatim>\<open>getMetadata\<close>.
\<close>

fun count_formats ::
  "env \<Rightarrow> string list \<Rightarrow> (string option \<times> nat) list \<Rightarrow> world
     \<Rightarrow> (error + (string option \<times> nat) list) \<times> world" where
  "count_formats e [] formats w = (Inr formats, w)"
| "count_formats e (name # rest) formats w =
     (case get_metadata e name w of
        (Inl err, w1) \<Rightarrow> (Inl err, w1)
      | (Inr metadata, w1) \<Rightarrow>
          (case contentType metadata of
             None \<Rightarrow> count_formats e rest formats w1
           | Some ct \<Rightarrow>
               if ct = [] then count_formats e rest formats w1
               else count_formats e rest
                      (AList.update (format_label (mimeTypeMapping e) ct)
                         ((case map_of formats (format_label (mimeTypeMapping e) ct) of
                             None \<Rightarrow> 0 | Some n \<Rightarrow> n) + 1)
                         formats) w1))"

definition file_formats :: "env \<Rightarrow> world \<Rightarrow> outcome \<times> world" where
  "file_formats e w =
     (case get_files e w of
        (Inl err, w1) \<Rightarrow> (Sent 500 (ErrorBody ''Failed to fetch file formats''), w1)
      | (Inr files, w1) \<Rightarrow>
          (case count_formats e files [] w1 of
             (Inl err, w2) \<Rightarrow> (Sent 500 (ErrorBody ''Failed to fetch file formats''), w2)
           | (Inr formats, w2) \<Rightarrow> (Sent 200 (FormatsBody formats), w2)))"

section \<open>Vocabulary of the statements\<close>

text \<open>The object \<^verbatim>\<open>save\<close> writes for an uploaded file, and the three calls one pair makes.\<close>

definition blob_of :: "upload_file \<Rightarrow> blob_object" where
  "blob_of f = \<lparr>payload = buffer f, contentType = Some (mimetype f), size_meta = Some (length (buffer f))\<rparr>"

definition pair_events :: "string \<Rightarrow> event list" where
  "pair_events n = [BlobSave (''files/'' @ n), BlobSign (''files/'' @ n), DocAdd n]"

definition write_blob ::
  "(string \<times> blob_object) list \<Rightarrow> upload_file \<times> string \<Rightarrow> (string \<times> blob_object) list" where
  "write_blob b = (\<lambda>(f, n). AList.update (''files/'' @ n) (blob_of f) b)"

definition link_of :: "env \<Rightarrow> string \<Rightarrow> string" where
  "link_of e n = signer e (''files/'' @ n)"

text \<open>What a stored record says: its name and its link.\<close>

definition record_view :: "string \<times> file_record \<Rightarrow> string \<times> string" where
  "record_view = (\<lambda>(i, r). (fileName r, fileURL r))"

fun is_blob_save :: "event \<Rightarrow> bool" where
  "is_blob_save (BlobSave p) = True"
| "is_blob_save ev = False"

text \<open>The world after one pair has gone through its three calls.\<close>

definition commit_pair :: "env \<Rightarrow> upload_file \<Rightarrow> string \<Rightarrow> world \<Rightarrow> world" where
  "commit_pair e f n w =
     w\<lparr>bucket := AList.update (''files/'' @ n) (blob_of f) (bucket w),
       files_coll := files_coll w @
         [(auto_id (map fst (files_coll w)),
           \<lparr>fileName = n, uploadDate = clock e (length (trace w) + 2),
            fileURL = signer e (''files/'' @ n)\<rparr>)],
       trace := trace w @ pair_events n\<rparr>"

text \<open>
  The loop of lines 79-99 again, over the list of pairs still to do; \<open>upload_loop_pairs\<close>
  below shows it is \<open>upload_loop\<close>.
\<close>

fun upload_pairs ::
  "env \<Rightarrow> (upload_file \<times> string) list \<Rightarrow> string list \<Rightarrow> world \<Rightarrow> (error + string list) \<times> world" where
  "upload_pairs e [] fileURLs w = (Inr fileURLs, w)"
| "upload_pairs e ((f, n) # ps) fileURLs w =
     (case blob_save e (''files/'' @ n) (buffer f) (mimetype f) w of
        (Inl err, w1) \<Rightarrow> (Inl err, w1)
      | (Inr _, w1) \<Rightarrow>
          (case get_signed_url e (''files/'' @ n) w1 of
             (Inl err, w2) \<Rightarrow> (Inl err, w2)
           | (Inr url, w2) \<Rightarrow>
               (case doc_add e \<lparr>fileName = n, uploadDate = clock e (length (trace w2)),
                                fileURL = url\<rparr> w2 of
                  (Inl err, w3) \<Rightarrow> (Inl err, w3)
                | (Inr _, w3) \<Rightarrow> upload_pairs e ps (fileURLs @ [url]) w3)))"

text \<open>Calls of Delete one after the other, each with its own outside world.\<close>

definition delete_all :: "(env \<times> string) list \<Rightarrow> world \<Rightarrow> world" where
  "delete_all calls w = fold (\<lambda>(e, i) w. snd (delete_file e i w)) calls w"



section \<open>Example inputs\<close>

definition env_ok :: env where
  "env_ok = \<lparr>fails = (\<lambda>n. False), signer = (\<lambda>p. ''https://signed/'' @ p), clock = (\<lambda>n. n),
             toLocaleString = (\<lambda>t. ''t''), mimeTypeMapping = [''application/pdf'' \<mapsto> ''PDF'']\<rparr>"

text \<open>The service rejects call number \<open>k\<close> and no other.\<close>

definition env_fail_at :: "nat \<Rightarrow> env" where
  "env_fail_at k = env_ok\<lparr>fails := (\<lambda>n. n = k)\<rparr>"

definition world_empty :: world where
  "world_empty = \<lparr>bucket = [], files_coll = [], downloads_coll = [], trace = []\<rparr>"

definition file_a :: upload_file where
  "file_a = \<lparr>buffer = ''AAAA'', mimetype = ''text/plain''\<rparr>"

definition file_b :: upload_file where
  "file_b = \<lparr>buffer = ''BB'', mimetype = ''application/pdf''\<rparr>"

definition file_c :: upload_file where
  "file_c = \<lparr>buffer = ''C'', mimetype = ''binary''\<rparr>"

definition req3 :: upload_request where
  "req3 = \<lparr>req_files = Some [file_a, file_b, file_c],
            req_fileNames = ParsedNames [''a.txt'', ''b.pdf'', ''c.bin'']\<rparr>"

text \<open>
  A world with three objects, one of them without a size and one of them without a
  content type, two records, the second of them pointing at an object that is not there,
  and four download events.
\<close>

definition world_two :: world where
  "world_two =
     \<lparr>bucket = [(''files/a.txt'', \<lparr>payload = ''AAAA'', contentType = Some ''text/plain'',
                                   size_meta = Some 134217728\<rparr>),
                (''files/b.pdf'', \<lparr>payload = ''BB'', contentType = Some ''application/pdf'',
                                   size_meta = None\<rparr>),
                (''logs/x'', \<lparr>payload = ''X'', contentType = None, size_meta = Some 1\<rparr>)],
      files_coll = [(''id1'', \<lparr>fileName = ''a.txt'', uploadDate = 1,
                               fileURL = ''https://signed/files/a.txt''\<rparr>),
                    (''id2'', \<lparr>fileName = ''gone.txt'', uploadDate = 2,
                               fileURL = ''https://signed/files/gone.txt''\<rparr>)],
      downloads_coll = [''d1'', ''d2'', ''d3'', ''d4''],
      trace = []\<rparr>"

section \<open>Facts about the classifier\<close>








section \<open>Facts about Upload\<close>

text \<open>The loop by index is the loop over the pairs that remain.\<close>

lemma upload_loop_pairs:
  "length fileNames = length files \<Longrightarrow> i \<le> length files \<Longrightarrow>
   upload_loop e files fileNames i fileURLs w = upload_pairs e (drop i (zip files fileNames)) fileURLs w"
proof (induction "length files - i" arbitrary: i fileURLs w)
  case 0
  then show ?case by (simp add: upload_loop.simps)
next
  case (Suc k)
  then have lt: "i < length files" by simp
  with Suc.prems have d: "drop i (zip files fileNames) = (files ! i, fileNames ! i) # drop (Suc i) (zip files fileNames)"
    by (simp flip: Cons_nth_drop_Suc)
  have ih: "upload_loop e files fileNames (Suc i) us w' = upload_pairs e (drop (Suc i) (zip files fileNames)) us w'" for us w'
    using Suc.hyps(1) [of "Suc i"] Suc.hyps(2) Suc.prems lt by simp
  show ?case
    by (subst upload_loop.simps) (simp add: lt d ih split: prod.splits sum.splits)
qed

lemma blob_save_eq:
  "blob_save e p b c w =
     (if fails e (length (trace w)) then (Inl StorageError, w\<lparr>trace := trace w @ [BlobSave p]\<rparr>)
      else (Inr (), w\<lparr>bucket := AList.update p \<lparr>payload = b, contentType = Some c, size_meta = Some (length b)\<rparr> (bucket w),
                      trace := trace w @ [BlobSave p]\<rparr>))"
  by (simp add: blob_save_def attempt_def)

lemma get_signed_url_eq:
  "get_signed_url e p w =
     (if fails e (length (trace w)) then (Inl StorageError, w\<lparr>trace := trace w @ [BlobSign p]\<rparr>)
      else (Inr (signer e p), w\<lparr>trace := trace w @ [BlobSign p]\<rparr>))"
  by (simp add: get_signed_url_def attempt_def)

lemma doc_add_eq:
  "doc_add e d w =
     (if fails e (length (trace w)) then (Inl FirestoreError, w\<lparr>trace := trace w @ [DocAdd (fileName d)]\<rparr>)
      else (Inr (auto_id (map fst (files_coll w))),
            w\<lparr>files_coll := files_coll w @ [(auto_id (map fst (files_coll w)), d)],
              trace := trace w @ [DocAdd (fileName d)]\<rparr>))"
  by (simp add: doc_add_def attempt_def Let_def)

lemma upload_pairs_step:
  "upload_pairs e ((f, n) # ps) urls w =
     (if fails e (length (trace w)) then
        (Inl StorageError, w\<lparr>trace := trace w @ take 1 (pair_events n)\<rparr>)
      else if fails e (length (trace w) + 1) then
        (Inl StorageError, w\<lparr>bucket := AList.update (''files/'' @ n) (blob_of f) (bucket w),
                              trace := trace w @ take 2 (pair_events n)\<rparr>)
      else if fails e (length (trace w) + 2) then
        (Inl FirestoreError, w\<lparr>bucket := AList.update (''files/'' @ n) (blob_of f) (bucket w),
                                trace := trace w @ take 3 (pair_events n)\<rparr>)
      else upload_pairs e ps (urls @ [signer e (''files/'' @ n)]) (commit_pair e f n w))"
  by (simp add: blob_save_eq get_signed_url_eq doc_add_eq commit_pair_def pair_events_def blob_of_def)

lemma length_le_foldr_max: "x \<in> set ids \<Longrightarrow> length x \<le> foldr max (map length ids) 0"
  by (induction ids) auto

lemma auto_id_fresh: "auto_id ids \<notin> set ids"
proof
  assume "auto_id ids \<in> set ids"
  then have "length (auto_id ids) \<le> foldr max (map length ids) 0"
    by (rule length_le_foldr_max)
  then show False by (simp add: auto_id_def)
qed

lemma commit_pair_fields:
  "trace (commit_pair e f n w) = trace w @ pair_events n"
  "bucket (commit_pair e f n w) = write_blob (bucket w) (f, n)"
  "downloads_coll (commit_pair e f n w) = downloads_coll w"
  by (simp_all add: commit_pair_def write_blob_def)

lemma commit_pair_files:
  "\<exists>i d. files_coll (commit_pair e f n w) = files_coll w @ [(i, d)] \<and> record_view (i, d) = (n, link_of e n)
      \<and> i \<notin> fst ` set (files_coll w)"
  using auto_id_fresh [of "map fst (files_coll w)"]
  by (simp add: commit_pair_def record_view_def link_of_def)

lemma length_pair_events: "length (pair_events n) = 3"
  by (simp add: pair_events_def)

lemma upload_pairs_ok:
  "upload_pairs e ps urls w = (Inr urls', w') \<Longrightarrow>
     urls' = urls @ map (\<lambda>(f, n). link_of e n) ps
   \<and> trace w' = trace w @ concat (map (\<lambda>(f, n). pair_events n) ps)
   \<and> bucket w' = foldl write_blob (bucket w) ps
   \<and> (\<exists>new. files_coll w' = files_coll w @ new
         \<and> map record_view new = map (\<lambda>(f, n). (n, link_of e n)) ps)
   \<and> downloads_coll w' = downloads_coll w"
proof (induction ps arbitrary: urls w)
  case Nil
  then show ?case by simp
next
  case (Cons p ps)
  obtain f n where p: "p = (f, n)" by (cases p)
  from Cons.prems have run: "upload_pairs e ps (urls @ [link_of e n]) (commit_pair e f n w) = (Inr urls', w')"
    unfolding p upload_pairs_step by (simp add: link_of_def split: if_splits)
  obtain i d where one: "files_coll (commit_pair e f n w) = files_coll w @ [(i, d)]"
      "record_view (i, d) = (n, link_of e n)"
    using commit_pair_files by blast
  from Cons.IH [OF run] one show ?case
    by (auto simp: p commit_pair_fields)
qed

lemma upload_pairs_first_failure:
  "m < 3 * length ps \<Longrightarrow> fails e (length (trace w) + m) \<Longrightarrow>
   (\<forall>c<m. \<not> fails e (length (trace w) + c)) \<Longrightarrow>
   \<exists>err w'. upload_pairs e ps urls w = (Inl err, w')
     \<and> trace w' = trace w @ concat (map (\<lambda>(f, n). pair_events n) (take (m div 3) ps))
                     @ take (Suc (m mod 3)) (pair_events (snd (ps ! (m div 3))))
     \<and> bucket w' = foldl write_blob (bucket w) (take ((m + 2) div 3) ps)
     \<and> (\<exists>new. files_coll w' = files_coll w @ new
           \<and> map record_view new = map (\<lambda>(f, n). (n, link_of e n)) (take (m div 3) ps))
     \<and> downloads_coll w' = downloads_coll w"
proof (induction ps arbitrary: urls w m)
  case Nil
  then show ?case by simp
next
  case (Cons p ps)
  obtain f n where p: "p = (f, n)" by (cases p)
  show ?case
  proof (cases "m < 3")
    case True
    then consider "m = 0" | "m = 1" | "m = 2" by linarith
    then show ?thesis
    proof cases
      case 1
      with Cons.prems show ?thesis
        unfolding p upload_pairs_step by (simp add: pair_events_def)
    next
      case 2
      with Cons.prems show ?thesis
        unfolding p upload_pairs_step by (simp add: write_blob_def pair_events_def)
    next
      case 3
      from Cons.prems(3) 3 have "\<not> fails e (length (trace w) + 0)" "\<not> fails e (length (trace w) + 1)"
        by (metis zero_less_numeral, metis one_less_numeral_iff semiring_norm(76))
      with Cons.prems 3 show ?thesis
        unfolding p upload_pairs_step by (simp add: write_blob_def pair_events_def)
    qed
  next
    case False
    then obtain m' where m: "m = m' + 3" by (metis add.commute le_Suc_ex not_less)
    from Cons.prems(3) have ok: "\<not> fails e (length (trace w))" "\<not> fails e (length (trace w) + 1)"
        "\<not> fails e (length (trace w) + 2)"
      using False by (auto simp: m dest: spec [of _ 0] spec [of _ 1] spec [of _ 2])
    have step: "upload_pairs e (p # ps) urls w =
        upload_pairs e ps (urls @ [signer e (''files/'' @ n)]) (commit_pair e f n w)"
      unfolding p upload_pairs_step using ok by simp
    have a: "m' < 3 * length ps" using Cons.prems(1) m by simp
    have idx: "length (trace (commit_pair e f n w)) + c = length (trace w) + (c + 3)" for c
      by (simp add: commit_pair_fields length_pair_events)
    have b: "fails e (length (trace (commit_pair e f n w)) + m')"
      unfolding idx using Cons.prems(2) m by simp
    have c: "\<forall>c<m'. \<not> fails e (length (trace (commit_pair e f n w)) + c)"
    proof (intro allI impI)
      fix c assume "c < m'"
      then have "c + 3 < m" using m by simp
      with Cons.prems(3) have "\<not> fails e (length (trace w) + (c + 3))" by blast
      then show "\<not> fails e (length (trace (commit_pair e f n w)) + c)"
        unfolding idx .
    qed
    obtain i d where one: "files_coll (commit_pair e f n w) = files_coll w @ [(i, d)]"
        "record_view (i, d) = (n, link_of e n)"
      using commit_pair_files by blast
    have d3: "m div 3 = Suc (m' div 3)" "m mod 3 = m' mod 3" "(m + 2) div 3 = Suc ((m' + 2) div 3)"
      using m by simp_all
    from Cons.IH [OF a b c, of "urls @ [signer e (''files/'' @ n)]"] one show ?thesis
      unfolding step d3 by (auto simp: p commit_pair_fields)
  qed
qed

lemma upload_pairs_no_failure:
  "(\<forall>c < 3 * length ps. \<not> fails e (length (trace w) + c)) \<Longrightarrow>
   \<exists>urls' w'. upload_pairs e ps urls w = (Inr urls', w')"
proof (induction ps arbitrary: urls w)
  case Nil
  then show ?case by simp
next
  case (Cons p ps)
  obtain f n where p: "p = (f, n)" by (cases p)
  from Cons.prems have ok: "\<not> fails e (length (trace w))" "\<not> fails e (length (trace w) + 1)"
      "\<not> fails e (length (trace w) + 2)"
    by (auto dest: spec [of _ 0] spec [of _ 1] spec [of _ 2])
  have "\<forall>c < 3 * length ps. \<not> fails e (length (trace (commit_pair e f n w)) + c)"
  proof (intro allI impI)
    fix c assume "c < 3 * length ps"
    then have "c + 3 < 3 * length (p # ps)" by simp
    with Cons.prems have "\<not> fails e (length (trace w) + (c + 3))" by blast
    moreover have "length (trace (commit_pair e f n w)) + c = length (trace w) + (c + 3)"
      by (simp add: commit_pair_fields length_pair_events)
    ultimately show "\<not> fails e (length (trace (commit_pair e f n w)) + c)"
      by metis
  qed
  from Cons.IH [OF this] show ?case
    unfolding p upload_pairs_step using ok by simp
qed

lemma map_case_zip:
  "length fs = length ns \<Longrightarrow> map (\<lambda>(f, n). g n) (zip fs ns) = map g ns"
  by (induction fs ns rule: list_induct2) auto

lemma count_blob_saves:
  "length (filter is_blob_save (concat (map pair_events ns))) = length ns"
  by (induction ns) (auto simp: pair_events_def)

lemma dom_write_blobs:
  "dom (map_of (foldl write_blob b ps)) = dom (map_of b) \<union> (\<lambda>(f, n). ''files/'' @ n) ` set ps"
  by (induction ps arbitrary: b) (auto simp: write_blob_def update_conv')

text \<open>
  C3. When Upload answers 200 for \<open>n\<close> payloads and \<open>n\<close> names: the answer carries \<open>n\<close>
  links, link \<open>i\<close> being the one signed for \<open>files/\<close> and name \<open>i\<close>; the calls made are,
  pair after pair in input order, the blob write, the link request and the record write,
  so \<open>n\<close> blob writes; the bucket is the old one with the \<open>n\<close> objects written in order;
  and \<open>n\<close> records are appended to the collection, record \<open>i\<close> holding name \<open>i\<close> and link \<open>i\<close>.
\<close>

theorem upload_success:
  assumes "req_files req = Some files" and "req_fileNames req = ParsedNames names"
    and "upload e req w = (Sent 200 body, w')"
  shows "length names = length files
    \<and> body = UploadOk ''Files uploaded successfully'' (map (link_of e) names)
    \<and> length (map (link_of e) names) = length files
    \<and> trace w' = trace w @ concat (map pair_events names)
    \<and> length (filter is_blob_save (trace w')) = length (filter is_blob_save (trace w)) + length files
    \<and> bucket w' = foldl write_blob (bucket w) (zip files names)
    \<and> (\<exists>new. files_coll w' = files_coll w @ new \<and> length new = length files
          \<and> map record_view new = map (\<lambda>n. (n, link_of e n)) names)
    \<and> downloads_coll w' = downloads_coll w"
proof -
  from assms have len: "length names = length files"
    by (auto simp: upload_def split: if_splits prod.splits sum.splits)
  with assms obtain urls where
      run: "upload_pairs e (zip files names) [] w = (Inr urls, w')"
      and body: "body = UploadOk ''Files uploaded successfully'' urls"
    by (auto simp: upload_def upload_loop_pairs split: if_splits prod.splits sum.splits)
  from upload_pairs_ok [OF run] obtain new where
      u: "urls = map (\<lambda>(f, n). link_of e n) (zip files names)"
      and t: "trace w' = trace w @ concat (map (\<lambda>(f, n). pair_events n) (zip files names))"
      and b: "bucket w' = foldl write_blob (bucket w) (zip files names)"
      and f: "files_coll w' = files_coll w @ new"
        "map record_view new = map (\<lambda>(f, n). (n, link_of e n)) (zip files names)"
      and d: "downloads_coll w' = downloads_coll w"
    by auto
  have z: "map (\<lambda>(f, n). g n) (zip files names) = map g names" for g :: "string \<Rightarrow> 'b"
    using len by (simp add: map_case_zip)
  from f(2) have "length new = length files"
    using len by (metis length_map length_zip min.idem)
  with u t b f d len body show ?thesis
    by (simp add: z count_blob_saves)
qed

theorem upload_success_witness:
  "\<exists>w'. upload env_ok req3 world_empty =
      (Sent 200 (UploadOk ''Files uploaded successfully''
         [''https://signed/files/a.txt'', ''https://signed/files/b.pdf'', ''https://signed/files/c.bin'']), w')
    \<and> trace w' = [BlobSave ''files/a.txt'', BlobSign ''files/a.txt'', DocAdd ''a.txt'',
                   BlobSave ''files/b.pdf'', BlobSign ''files/b.pdf'', DocAdd ''b.pdf'',
                   BlobSave ''files/c.bin'', BlobSign ''files/c.bin'', DocAdd ''c.bin'']
    \<and> length (filter is_blob_save (trace w')) = 3
    \<and> map fst (bucket w') = [''files/a.txt'', ''files/b.pdf'', ''files/c.bin'']
    \<and> map record_view (files_coll w') =
        [(''a.txt'', ''https://signed/files/a.txt''), (''b.pdf'', ''https://signed/files/b.pdf''),
         (''c.bin'', ''https://signed/files/c.bin'')]"
proof -
  have "\<exists>urls w'. upload_pairs env_ok (zip [file_a, file_b, file_c] [''a.txt'', ''b.pdf'', ''c.bin'']) [] world_empty
      = (Inr urls, w')"
    by (rule upload_pairs_no_failure) (simp add: env_ok_def)
  then obtain body w' where run: "upload env_ok req3 world_empty = (Sent 200 body, w')"
    by (auto simp: upload_def req3_def upload_loop_pairs)
  from upload_success [OF _ _ run, of "[file_a, file_b, file_c]" "[''a.txt'', ''b.pdf'', ''c.bin'']"]
  show ?thesis
    unfolding run
    by (auto simp: req3_def env_ok_def world_empty_def pair_events_def link_of_def write_blob_def)
qed

text \<open>
  C1. Let call \<open>m\<close> of a batch (counted from 0, three calls a pair) be the first one the
  services reject; it belongs to the pair at index \<open>k = m div 3\<close>. Then Upload answers 500
  with a message and no links. The calls made are all three of each pair before \<open>k\<close> and
  the first \<open>m mod 3 + 1\<close> of pair \<open>k\<close>, and no other: no pair after \<open>k\<close> is attempted,
  \<open>k + 1\<close> blob writes are asked for in all. The records of the pairs before \<open>k\<close> are
  appended and stay, and so do their blobs.
\<close>

theorem upload_partial_failure:
  assumes "req_files req = Some files" and "req_fileNames req = ParsedNames names"
    and "length files = length names"
    and "m < 3 * length names"
    and "fails e (length (trace w) + m)"
    and "\<forall>c<m. \<not> fails e (length (trace w) + c)"
  shows "\<exists>w' new. upload e req w = (Sent 500 (Message ''Failed to upload files''), w')
    \<and> trace w' = trace w @ concat (map pair_events (take (m div 3) names))
                    @ take (Suc (m mod 3)) (pair_events (names ! (m div 3)))
    \<and> files_coll w' = files_coll w @ new
    \<and> map record_view new = map (\<lambda>n. (n, link_of e n)) (take (m div 3) names)
    \<and> bucket w' = foldl write_blob (bucket w) (take ((m + 2) div 3) (zip files names))
    \<and> (\<forall>n \<in> set (take (m div 3) names). map_of (bucket w') (''files/'' @ n) \<noteq> None)
    \<and> length (filter is_blob_save (trace w')) = length (filter is_blob_save (trace w)) + Suc (m div 3)
    \<and> downloads_coll w' = downloads_coll w"
proof -
  let ?ps = "zip files names"
  have k: "m div 3 < length names" using assms(4) by simp
  have m: "m < 3 * length ?ps" using assms(3,4) by simp
  from upload_pairs_first_failure [OF m assms(5,6), of "[]"] obtain err w' new where
      run: "upload_pairs e ?ps [] w = (Inl err, w')"
      and t: "trace w' = trace w @ concat (map (\<lambda>(f, n). pair_events n) (take (m div 3) ?ps))
                     @ take (Suc (m mod 3)) (pair_events (snd (?ps ! (m div 3))))"
      and b: "bucket w' = foldl write_blob (bucket w) (take ((m + 2) div 3) ?ps)"
      and f: "files_coll w' = files_coll w @ new"
        "map record_view new = map (\<lambda>(f, n). (n, link_of e n)) (take (m div 3) ?ps)"
      and d: "downloads_coll w' = downloads_coll w"
    by blast
  have tz: "take j ?ps = zip (take j files) (take j names)" for j
    by (simp add: take_zip)
  have z: "map (\<lambda>(f, n). g n) (take (m div 3) ?ps) = map g (take (m div 3) names)" for g :: "string \<Rightarrow> 'b"
    unfolding tz using assms(3) by (simp add: map_case_zip)
  have nth: "snd (?ps ! (m div 3)) = names ! (m div 3)"
    using k assms(3) by simp
  have sent: "upload e req w = (Sent 500 (Message ''Failed to upload files''), w')"
    using assms(1,2,3) run by (simp add: upload_def upload_loop_pairs)
  have t': "trace w' = trace w @ concat (map pair_events (take (m div 3) names))
                    @ take (Suc (m mod 3)) (pair_events (names ! (m div 3)))"
    using t by (simp add: z nth)
  have saves: "length (filter is_blob_save (take (Suc (m mod 3)) (pair_events n))) = 1" for n
    by (simp add: pair_events_def take_Cons')
  have count: "length (filter is_blob_save (trace w')) = length (filter is_blob_save (trace w)) + Suc (m div 3)"
    using k by (simp add: t' count_blob_saves saves)
  have present: "\<forall>n \<in> set (take (m div 3) names). map_of (bucket w') (''files/'' @ n) \<noteq> None"
  proof
    fix n assume n: "n \<in> set (take (m div 3) names)"
    have "m div 3 \<le> (m + 2) div 3" by simp
    then have "set (take (m div 3) names) \<subseteq> set (take ((m + 2) div 3) names)"
      by (rule set_take_subset_set_take)
    with n have "n \<in> snd ` set (take ((m + 2) div 3) ?ps)"
      unfolding tz using assms(3) by (auto simp flip: set_map)
    then have "''files/'' @ n \<in> (\<lambda>(f, n). ''files/'' @ n) ` set (take ((m + 2) div 3) ?ps)"
      by force
    then have "''files/'' @ n \<in> dom (map_of (bucket w'))"
      unfolding b dom_write_blobs by blast
    then show "map_of (bucket w') (''files/'' @ n) \<noteq> None" by blast
  qed
  from sent t' f(1) f(2) [unfolded z] b present count d show ?thesis
    by blast
qed

theorem upload_partial_failure_witness:
  "fst (upload (env_fail_at 3) req3 world_empty) = Sent 500 (Message ''Failed to upload files'')
   \<and> trace (snd (upload (env_fail_at 3) req3 world_empty))
       = [BlobSave ''files/a.txt'', BlobSign ''files/a.txt'', DocAdd ''a.txt'', BlobSave ''files/b.pdf'']
   \<and> map record_view (files_coll (snd (upload (env_fail_at 3) req3 world_empty)))
       = [(''a.txt'', ''https://signed/files/a.txt'')]
   \<and> map fst (bucket (snd (upload (env_fail_at 3) req3 world_empty))) = [''files/a.txt'']"
  using upload_partial_failure [of req3 "[file_a, file_b, file_c]" "[''a.txt'', ''b.pdf'', ''c.bin'']"
      3 "env_fail_at 3" world_empty]
  by (auto simp: req3_def env_fail_at_def env_ok_def world_empty_def pair_events_def link_of_def
      write_blob_def)




section \<open>Facts about Statistics\<close>

lemma get_metadata_eq:
  "get_metadata e name w =
     (if fails e (length (trace w)) then (Inl StorageError, w\<lparr>trace := trace w @ [BlobGetMetadata name]\<rparr>)
      else (case map_of (bucket w) name of
              None \<Rightarrow> (Inl StorageError, w\<lparr>trace := trace w @ [BlobGetMetadata name]\<rparr>)
            | Some b \<Rightarrow> (Inr b, w\<lparr>trace := trace w @ [BlobGetMetadata name]\<rparr>)))"
  by (simp add: get_metadata_def attempt_def split: option.splits)

lemma get_files_eq:
  "get_files e w =
     (if fails e (length (trace w)) then (Inl StorageError, w\<lparr>trace := trace w @ [BlobList]\<rparr>)
      else (Inr (map fst (bucket w)), w\<lparr>trace := trace w @ [BlobList]\<rparr>))"
  by (simp add: get_files_def attempt_def)














lemma world_two_fields:
  "trace world_two = []"
  "downloads_coll world_two = [''d1'', ''d2'', ''d3'', ''d4'']"
  "length (bucket world_two) = 3"
  "map fst (bucket world_two) = [''files/a.txt'', ''files/b.pdf'', ''logs/x'']"
  "distinct (map fst (bucket world_two))"
  by (simp_all add: world_two_def)

lemma env_fields:
  "fails env_ok c = False"
  "fails (env_fail_at k) c = (c = k)"
  by (simp_all add: env_ok_def env_fail_at_def)




section \<open>Facts about Delete and List\<close>

lemma doc_get_eq:
  "doc_get e fileId w =
     (if fails e (length (trace w)) then (Inl FirestoreError, w\<lparr>trace := trace w @ [DocGet fileId]\<rparr>)
      else (Inr (map_of (files_coll w) fileId), w\<lparr>trace := trace w @ [DocGet fileId]\<rparr>))"
  by (simp add: doc_get_def attempt_def)

lemma blob_delete_eq:
  "blob_delete e path w =
     (if fails e (length (trace w)) \<or> map_of (bucket w) path = None
      then (Inl StorageError, w\<lparr>trace := trace w @ [BlobDelete path]\<rparr>)
      else (Inr (), w\<lparr>bucket := AList.delete path (bucket w), trace := trace w @ [BlobDelete path]\<rparr>))"
  by (auto simp: blob_delete_def attempt_def split: option.splits bool.splits)

lemma doc_delete_eq:
  "doc_delete e fileId w =
     (if fails e (length (trace w)) then (Inl FirestoreError, w\<lparr>trace := trace w @ [DocDelete fileId]\<rparr>)
      else (Inr (), w\<lparr>files_coll := filter (\<lambda>(i, d). i \<noteq> fileId) (files_coll w),
                      trace := trace w @ [DocDelete fileId]\<rparr>))"
  by (simp add: doc_delete_def attempt_def)

lemma delete_file_eq:
  "delete_file e fileId w =
     (if fails e (length (trace w)) then
        (Sent 500 (Message ''Failed to delete file''), w\<lparr>trace := trace w @ [DocGet fileId]\<rparr>)
      else (case map_of (files_coll w) fileId of
          None \<Rightarrow> (Sent 404 (Message ''File not found''), w\<lparr>trace := trace w @ [DocGet fileId]\<rparr>)
        | Some r \<Rightarrow>
            if fails e (length (trace w) + 1) \<or> map_of (bucket w) (''files/'' @ fileName r) = None then
              (Sent 500 (Message ''Failed to delete file''),
               w\<lparr>trace := trace w @ [DocGet fileId, BlobDelete (''files/'' @ fileName r)]\<rparr>)
            else if fails e (length (trace w) + 2) then
              (Sent 500 (Message ''Failed to delete file''),
               w\<lparr>bucket := AList.delete (''files/'' @ fileName r) (bucket w),
                 trace := trace w @ [DocGet fileId, BlobDelete (''files/'' @ fileName r), DocDelete fileId]\<rparr>)
            else
              (Sent 200 (Message ''File deleted successfully''),
               w\<lparr>bucket := AList.delete (''files/'' @ fileName r) (bucket w),
                 files_coll := filter (\<lambda>(i, d). i \<noteq> fileId) (files_coll w),
                 trace := trace w @ [DocGet fileId, BlobDelete (''files/'' @ fileName r), DocDelete fileId]\<rparr>)))"
  by (simp add: delete_file_def doc_get_eq blob_delete_eq doc_delete_eq split: option.splits)

lemma map_of_filter_other:
  "k \<noteq> i \<Longrightarrow> map_of (filter (\<lambda>(j, d). j \<noteq> i) xs) k = map_of xs k"
  by (induction xs) auto



text \<open>
  C4. For a record that exists, the calls of Delete are a prefix of: read the record,
  delete the blob at \<open>files/\<close> and the record's name, delete the record. So the record's
  deletion is only ever asked for with the blob already gone. And when the blob is
  deleted and the record's deletion is then rejected, the answer is 500, the blob is
  absent and the record is still there: nothing puts the blob back.
\<close>

theorem delete_blob_before_record:
  assumes "map_of (files_coll w) fileId = Some r"
    and "delete_file e fileId w = (reply, w')"
  shows "(\<exists>k\<le>3. trace w' = trace w @
            take k [DocGet fileId, BlobDelete (''files/'' @ fileName r), DocDelete fileId])
    \<and> (DocDelete fileId \<in> set (drop (length (trace w)) (trace w'))
          \<longrightarrow> map_of (bucket w') (''files/'' @ fileName r) = None)
    \<and> (\<not> fails e (length (trace w)) \<and> \<not> fails e (length (trace w) + 1)
        \<and> map_of (bucket w) (''files/'' @ fileName r) \<noteq> None \<and> fails e (length (trace w) + 2)
          \<longrightarrow> reply = Sent 500 (Message ''Failed to delete file'')
            \<and> map_of (bucket w') (''files/'' @ fileName r) = None
            \<and> files_coll w' = files_coll w
            \<and> map_of (files_coll w') fileId = Some r
            \<and> trace w' = trace w @ [DocGet fileId, BlobDelete (''files/'' @ fileName r), DocDelete fileId])"
proof -
  let ?evs = "[DocGet fileId, BlobDelete (''files/'' @ fileName r), DocDelete fileId]"
  have t1: "[DocGet fileId] = take 1 ?evs" and t2: "[DocGet fileId, BlobDelete (''files/'' @ fileName r)] = take 2 ?evs"
    and t3: "?evs = take 3 ?evs"
    by simp_all
  from assms have order: "\<exists>k\<le>3. trace w' = trace w @ take k ?evs"
    unfolding delete_file_eq
    by (auto split: if_splits intro: exI [of _ 1] exI [of _ 2] exI [of _ 3])
  from assms have gone: "DocDelete fileId \<in> set (drop (length (trace w)) (trace w'))
          \<longrightarrow> map_of (bucket w') (''files/'' @ fileName r) = None"
    unfolding delete_file_eq by (auto split: if_splits simp: delete_conv)
  from assms have dangling: "\<not> fails e (length (trace w)) \<and> \<not> fails e (length (trace w) + 1)
        \<and> map_of (bucket w) (''files/'' @ fileName r) \<noteq> None \<and> fails e (length (trace w) + 2)
          \<longrightarrow> reply = Sent 500 (Message ''Failed to delete file'')
            \<and> map_of (bucket w') (''files/'' @ fileName r) = None
            \<and> files_coll w' = files_coll w
            \<and> map_of (files_coll w') fileId = Some r
            \<and> trace w' = trace w @ ?evs"
    unfolding delete_file_eq by (auto simp: delete_conv)
  from order gone dangling show ?thesis by blast
qed

lemma world_two_records:
  "map_of (files_coll world_two) ''id1'' =
     Some \<lparr>fileName = ''a.txt'', uploadDate = 1, fileURL = ''https://signed/files/a.txt''\<rparr>"
  "map_of (files_coll world_two) ''id2'' =
     Some \<lparr>fileName = ''gone.txt'', uploadDate = 2, fileURL = ''https://signed/files/gone.txt''\<rparr>"
  "map_of (files_coll world_two) ''id3'' = None"
  "map_of (bucket world_two) ''files/a.txt'' \<noteq> None"
  "map_of (bucket world_two) ''files/gone.txt'' = None"
  by (simp_all add: world_two_def)

theorem delete_blob_before_record_witness:
  "fst (delete_file (env_fail_at 2) ''id1'' world_two) = Sent 500 (Message ''Failed to delete file'')
   \<and> map_of (bucket (snd (delete_file (env_fail_at 2) ''id1'' world_two))) ''files/a.txt'' = None
   \<and> map fst (files_coll (snd (delete_file (env_fail_at 2) ''id1'' world_two))) = [''id1'', ''id2'']
   \<and> trace (snd (delete_file (env_fail_at 2) ''id1'' world_two)) =
       [DocGet ''id1'', BlobDelete ''files/a.txt'', DocDelete ''id1'']"
  using delete_blob_before_record [where w = world_two and fileId = "''id1''"
      and e = "env_fail_at 2" and reply = "fst (delete_file (env_fail_at 2) ''id1'' world_two)"
      and w' = "snd (delete_file (env_fail_at 2) ''id1'' world_two)", OF world_two_records(1)]
    world_two_records(4)
  by (simp add: world_two_fields env_fields) (simp add: world_two_def)



lemma delete_keeps_dangling:
  assumes "map_of (files_coll w) fileId = Some r"
    and "map_of (bucket w) (''files/'' @ fileName r) = None"
  shows "map_of (files_coll (snd (delete_file e i w))) fileId = Some r
    \<and> map_of (bucket (snd (delete_file e i w))) (''files/'' @ fileName r) = None"
proof (cases "i = fileId")
  case True
  with assms show ?thesis
    unfolding delete_file_eq by simp
next
  case False
  with assms show ?thesis
    unfolding delete_file_eq
    by (auto simp: map_of_filter_other delete_conv split: option.splits)
qed

lemma delete_all_keeps_dangling:
  "map_of (files_coll w) fileId = Some r \<Longrightarrow> map_of (bucket w) (''files/'' @ fileName r) = None \<Longrightarrow>
   map_of (files_coll (delete_all calls w)) fileId = Some r
   \<and> map_of (bucket (delete_all calls w)) (''files/'' @ fileName r) = None"
proof (induction calls arbitrary: w)
  case Nil
  then show ?case by (simp add: delete_all_def)
next
  case (Cons c calls)
  obtain e i where c: "c = (e, i)" by (cases c)
  have step: "delete_all (c # calls) w = delete_all calls (snd (delete_file e i w))"
    by (simp add: delete_all_def c)
  from delete_keeps_dangling [OF Cons.prems, of e i] show ?case
    unfolding step by (intro Cons.IH) simp_all
qed

text \<open>
  C10. For a record whose blob is absent, Delete answers 500 and leaves the record and the
  bucket as they were: when the read of the record is accepted, the blob's deletion is
  asked for and rejected, and the record's deletion is never asked for. Whatever Delete
  calls follow one another, for whatever identifiers, the record stays and its blob stays
  absent.
\<close>

theorem delete_dangling_record_stays:
  assumes "map_of (files_coll w) fileId = Some r"
    and "map_of (bucket w) (''files/'' @ fileName r) = None"
  shows "fst (delete_file e fileId w) = Sent 500 (Message ''Failed to delete file'')
    \<and> files_coll (snd (delete_file e fileId w)) = files_coll w
    \<and> bucket (snd (delete_file e fileId w)) = bucket w
    \<and> DocDelete fileId \<notin> set (drop (length (trace w)) (trace (snd (delete_file e fileId w))))
    \<and> (\<not> fails e (length (trace w)) \<longrightarrow>
          trace (snd (delete_file e fileId w)) =
            trace w @ [DocGet fileId, BlobDelete (''files/'' @ fileName r)])
    \<and> map_of (files_coll (delete_all calls w)) fileId = Some r
    \<and> map_of (bucket (delete_all calls w)) (''files/'' @ fileName r) = None"
  using assms delete_all_keeps_dangling [OF assms, of calls]
  unfolding delete_file_eq by simp

theorem delete_dangling_record_stays_witness:
  "fst (delete_file env_ok ''id2'' world_two) = Sent 500 (Message ''Failed to delete file'')
   \<and> files_coll (snd (delete_file env_ok ''id2'' world_two)) = files_coll world_two
   \<and> trace (snd (delete_file env_ok ''id2'' world_two)) = [DocGet ''id2'', BlobDelete ''files/gone.txt'']
   \<and> map_of (files_coll (delete_all [(env_ok, ''id2''), (env_ok, ''id1''), (env_ok, ''id2'')] world_two)) ''id2''
       = Some \<lparr>fileName = ''gone.txt'', uploadDate = 2, fileURL = ''https://signed/files/gone.txt''\<rparr>"
  using delete_dangling_record_stays [OF world_two_records(2), of env_ok
      "[(env_ok, ''id2''), (env_ok, ''id1''), (env_ok, ''id2'')]"]
  by (simp add: world_two_records world_two_fields env_fields)

section \<open>Facts about FileFormats\<close>

lemma count_formats_failure:
  "i < length names \<Longrightarrow> fails e (length (trace w) + i) \<Longrightarrow>
   \<exists>err w'. count_formats e names formats w = (Inl err, w')
     \<and> bucket w' = bucket w \<and> files_coll w' = files_coll w \<and> downloads_coll w' = downloads_coll w"
proof (induction names arbitrary: i w formats)
  case Nil
  then show ?case by simp
next
  case (Cons name rest)
  let ?w1 = "w\<lparr>trace := trace w @ [BlobGetMetadata name]\<rparr>"
  show ?case
  proof (cases "fails e (length (trace w)) \<or> map_of (bucket w) name = None")
    case True
    then show ?thesis
      by (auto simp: get_metadata_eq)
  next
    case False
    then obtain b where b: "map_of (bucket w) name = Some b" and ok: "\<not> fails e (length (trace w))"
      by auto
    from ok Cons.prems obtain j where i: "i = Suc j"
      by (cases i) auto
    with Cons.prems have j: "j < length rest" "fails e (length (trace ?w1) + j)"
      by simp_all
    have rest: "\<exists>err w'. count_formats e rest fs ?w1 = (Inl err, w')
        \<and> bucket w' = bucket w \<and> files_coll w' = files_coll w \<and> downloads_coll w' = downloads_coll w" for fs
      using Cons.IH [OF j, of fs] by simp
    show ?thesis
      using rest by (simp add: get_metadata_eq b ok split: option.splits)
  qed
qed

text \<open>
  C9. When the metadata call for any one listed object is rejected, FileFormats answers
  500 with an error and no histogram, whatever was counted for the objects before.
\<close>

theorem file_formats_no_recovery:
  assumes "i < length (bucket w)" and "fails e (length (trace w) + 1 + i)"
  shows "fst (file_formats e w) = Sent 500 (ErrorBody ''Failed to fetch file formats'')
    \<and> bucket (snd (file_formats e w)) = bucket w
    \<and> files_coll (snd (file_formats e w)) = files_coll w
    \<and> downloads_coll (snd (file_formats e w)) = downloads_coll w"
proof (cases "fails e (length (trace w))")
  case True
  then show ?thesis
    by (simp add: file_formats_def get_files_eq)
next
  case False
  let ?w1 = "w\<lparr>trace := trace w @ [BlobList]\<rparr>"
  from assms have "i < length (map fst (bucket w))" "fails e (length (trace ?w1) + i)"
    by simp_all
  from count_formats_failure [OF this, of "[]"] False show ?thesis
    by (auto simp: file_formats_def get_files_eq)
qed

theorem file_formats_no_recovery_witness:
  "fst (file_formats (env_fail_at 2) world_two) = Sent 500 (ErrorBody ''Failed to fetch file formats'')
   \<and> bucket (snd (file_formats (env_fail_at 2) world_two)) = bucket world_two
   \<and> fst (file_formats env_ok world_two) = Sent 200 (FormatsBody [(Some ''plain'', 1), (Some ''PDF'', 1)])
   \<and> fst (file_formats (env_fail_at 1) world_two) = Sent 500 (ErrorBody ''Failed to fetch file formats'')"
proof -
  have ok: "fst (file_formats env_ok world_two) = Sent 200 (FormatsBody [(Some ''plain'', 1), (Some ''PDF'', 1)])"
    by (simp add: file_formats_def get_files_eq get_metadata_eq world_two_def format_label_def
        nth_opt_def env_ok_def)
  from file_formats_no_recovery [of 1 world_two "env_fail_at 2"]
    file_formats_no_recovery [of 0 world_two "env_fail_at 1"] ok
  show ?thesis
    by (simp add: world_two_fields env_fields)
qed

section \<open>One object per name\<close>

text \<open>The handlers that write to the bucket keep its names distinct.\<close>

lemma upload_pairs_distinct:
  "distinct (map fst (bucket w)) \<Longrightarrow> distinct (map fst (bucket (snd (upload_pairs e ps urls w))))"
proof (induction ps arbitrary: urls w)
  case Nil
  then show ?case by simp
next
  case (Cons p ps)
  obtain f n where p: "p = (f, n)" by (cases p)
  have "distinct (map fst (bucket (commit_pair e f n w)))"
    using Cons.prems by (simp add: commit_pair_fields write_blob_def distinct_update)
  from Cons.IH [OF this] Cons.prems show ?case
    unfolding p upload_pairs_step by (simp add: distinct_update)
qed

lemma upload_distinct:
  "distinct (map fst (bucket w)) \<Longrightarrow> distinct (map fst (bucket (snd (upload e req w))))"
proof -
  assume d: "distinct (map fst (bucket w))"
  have key: "distinct (map fst (bucket w'))"
    if "upload_loop e files names 0 [] w = (r, w')" and "length files = length names"
    for files names r w'
    using that upload_pairs_distinct [OF d, of e "zip files names" "[]"]
    by (simp add: upload_loop_pairs)
  with d show ?thesis
    by (auto simp: upload_def split: parsed_names.splits option.splits prod.splits sum.splits)
qed

lemma delete_file_distinct:
  "distinct (map fst (bucket w)) \<Longrightarrow> distinct (map fst (bucket (snd (delete_file e i w))))"
  unfolding delete_file_eq by (simp add: distinct_delete split: option.splits)

end
